theory Spec2Isabelle
  imports Main "HOL-Library.Sublist"
begin

section \<open>mediasync: a shallow embedding of \<^verbatim>\<open>mediasync.py\<close>\<close>

text \<open>
  The script copies the media files found under some source folders into the destination
  folders of the categories they belong to, and keeps a table of the
  (file, category) pairs it has already handled.

  Python strings are modelled as \<^typ>\<open>string\<close>; case-insensitive matching folds the ASCII
  letters only. Everything the script asks of the operating system, the file system, the
  clock, the regular-expression compiler and SQLite is a field of an environment record,
  so that every theorem holds for whatever these answer. Three things are fixed about
  them. The directory walk of a source folder is the sequence it yields during the run.
  What \<^verbatim>\<open>os.makedirs\<close> and \<^verbatim>\<open>shutil.copyfile\<close> raise is an \<^verbatim>\<open>OSError\<close>, which the
  handlers of \<^verbatim>\<open>CopyCommand.run\<close> catch (\<^verbatim>\<open>IOError\<close> is \<^verbatim>\<open>OSError\<close> from Python 3.3 on).
  Of what the script asks of SQLite, the \<^verbatim>\<open>INSERT\<close> and the commit can raise; an
  \<^verbatim>\<open>INSERT\<close> that does not raise appends its row, the table having no constraint. Paths
  are text that Python can encode, for which the find query does not raise.
\<close>

subsection \<open>Python string operations used by the script\<close>

definition ascii_lower :: "char \<Rightarrow> char" where
  "ascii_lower c =
     (case map_of (zip ''ABCDEFGHIJKLMNOPQRSTUVWXYZ'' ''abcdefghijklmnopqrstuvwxyz'') c of
        Some l \<Rightarrow> l
      | None \<Rightarrow> c)"

definition lower :: "string \<Rightarrow> string" where
  "lower s = map ascii_lower s"

text \<open>\<^verbatim>\<open>s.endswith(t)\<close>.\<close>

definition endswith :: "string \<Rightarrow> string \<Rightarrow> bool" where
  "endswith s t = (length t \<le> length s \<and> drop (length s - length t) s = t)"

text \<open>
  \<^verbatim>\<open>sub in s\<close>, which is also what \<^verbatim>\<open>re.search(re.escape(sub), s) is not None\<close>
  decides: the escaped pattern matches \<open>sub\<close> literally, anywhere in \<open>s\<close>.
\<close>

fun str_contains :: "string \<Rightarrow> string \<Rightarrow> bool" where
  "str_contains sub [] = (sub = [])"
| "str_contains sub (c # cs) = (prefix sub (c # cs) \<or> str_contains sub cs)"

text \<open>
  \<^verbatim>\<open>s.replace(old, new)\<close>: every non-overlapping occurrence of \<open>old\<close>, found from the
  left, is replaced; an empty \<open>old\<close> matches before every character and at the end.
\<close>

fun str_replace :: "string \<Rightarrow> string \<Rightarrow> string \<Rightarrow> string" where
  "str_replace old new s =
     (if old = [] then new @ concat (map (\<lambda>c. c # new) s)
      else if s = [] then []
      else if prefix old s then new @ str_replace old new (drop (length old) s)
      else hd s # str_replace old new (tl s))"

text \<open>\<^verbatim>\<open>s.rfind(c)\<close> for a one-character \<open>c\<close>: the highest index, or \<open>-1\<close>.\<close>

fun rfind :: "string \<Rightarrow> char \<Rightarrow> int" where
  "rfind [] c = -1"
| "rfind (x # xs) c =
     (let r = rfind xs c in if 0 \<le> r then r + 1 else if x = c then 0 else -1)"

text \<open>\<^verbatim>\<open>s[:i]\<close>: a negative \<open>i\<close> counts from the end.\<close>

definition slice_to :: "string \<Rightarrow> int \<Rightarrow> string" where
  "slice_to s i = (if i < 0 then take (nat (int (length s) + i)) s else take (nat i) s)"

text \<open>\<^verbatim>\<open>s.split(',')\<close>: never empty; \<^verbatim>\<open>''.split(',')\<close> is \<^verbatim>\<open>['']\<close>.\<close>

fun split_comma :: "string \<Rightarrow> string list" where
  "split_comma [] = [[]]"
| "split_comma (c # cs) =
     (if c = CHR '','' then [] # split_comma cs
      else (case split_comma cs of
              [] \<Rightarrow> [[c]]
            | w # ws \<Rightarrow> (c # w) # ws))"

text \<open>\<^verbatim>\<open>os.path.join(a, b)\<close> on POSIX, for two arguments.\<close>

definition os_path_join :: "string \<Rightarrow> string \<Rightarrow> string" where
  "os_path_join a b =
     (if prefix ''/'' b then b
      else if a = [] \<or> endswith a ''/'' then a @ b
      else a @ ''/'' @ b)"

declare str_replace.simps [simp del]

subsection \<open>Data\<close>

text \<open>
  A row of the table \<^verbatim>\<open>MediaSourceFiles\<close>, and the tuple \<^verbatim>\<open>values\<close> the script
  inserts: (sourcePath, categoryName, destinationPath, processedTime).
\<close>

type_synonym row = "string \<times> string \<times> string \<times> string"

datatype exn =
  AssertionError string
| TypeError string
| re_error string
| sqlite3_Error string
| SystemExit int

text \<open>What the script writes: \<^verbatim>\<open>print\<close> lines and \<^verbatim>\<open>sys.stderr.write\<close> texts, in order.
  \<open>PrintNewEntry values\<close> is the line \<^verbatim>\<open>"New media entry: " + str(values)\<close>.\<close>

datatype event =
  Print string
| PrintNewEntry row
| StderrWrite string

record CopyCommand =
  sourcePath :: string
  destinationPath :: string

text \<open>A compiled exclusion pattern is modelled by what its \<^verbatim>\<open>search\<close> decides:
  whether it matches somewhere in the path.\<close>

record MediaCategory =
  name :: string
  extensions :: "string list"
  destination :: string
  exclusionRegex :: "(string \<Rightarrow> bool) option"

text \<open>
  The state the script acts on: the file system, the table as the open connection sees
  it (\<open>rows\<close>), the table as it is on disk (\<open>committed\<close>), what has been written to the
  terminal, and how often the clock has been read.
\<close>

record 'fs world =
  fs :: 'fs
  rows :: "row list"
  committed :: "row list"
  console :: "event list"
  ticks :: nat

text \<open>
  The environment. \<open>os_walk\<close> is the sequence of (root, dirs, files) triples that
  \<^verbatim>\<open>os.walk\<close> yields for a source folder during the run. \<open>os_makedirs\<close> and
  \<open>shutil_copyfile\<close> return the text of the \<^verbatim>\<open>OSError\<close> they raise, if any, and the
  file system they leave. \<open>sqlite_insert_error\<close> is the text of the error SQLite raises
  for an \<^verbatim>\<open>INSERT\<close>, if any, and \<open>sqlite_commit_error\<close> the text of the error it
  raises for a commit, if any. \<open>re_compile\<close> is \<open>None\<close> for a malformed pattern.
\<close>

record 'fs env =
  os_walk :: "string \<Rightarrow> (string \<times> string list \<times> string list) list"
  os_path_isdir :: "'fs \<Rightarrow> string \<Rightarrow> bool"
  os_makedirs :: "'fs \<Rightarrow> string \<Rightarrow> string option \<times> 'fs"
  shutil_copyfile :: "'fs \<Rightarrow> string \<Rightarrow> string \<Rightarrow> string option \<times> 'fs"
  datetime_now :: "nat \<Rightarrow> string"
  sqlite_insert_error :: "row list \<Rightarrow> row \<Rightarrow> string option"
  sqlite_commit_error :: "row list \<Rightarrow> string option"
  os_path_expanduser :: "string \<Rightarrow> string"
  re_compile :: "string \<Rightarrow> (string \<Rightarrow> bool) option"

subsection \<open>\<^verbatim>\<open>class CopyCommand\<close>\<close>

text \<open>\<^verbatim>\<open>CopyCommand.__init__\<close>: three \<^verbatim>\<open>print\<close>s and an \<^verbatim>\<open>AssertionError\<close> when the source
  root does not occur in the source path; otherwise every occurrence of the source root
  is deleted from the source path and the destination root is put in front.\<close>

definition CopyCommand_init ::
  "string \<Rightarrow> string \<Rightarrow> string \<Rightarrow> (event list \<times> exn) + CopyCommand" where
  "CopyCommand_init sourceRoot destinationRoot sourcePath' =
     (if \<not> str_contains sourceRoot sourcePath' then
        Inl ([Print (''sourceRoot: '' @ sourceRoot),
              Print (''destinationRoot: '' @ destinationRoot),
              Print (''sourcePath: '' @ sourcePath')],
             AssertionError ''sourcePath does not include sourceRoot'')
      else
        Inr \<lparr>sourcePath = sourcePath',
             destinationPath = destinationRoot @ str_replace sourceRoot [] sourcePath'\<rparr>)"

text \<open>\<^verbatim>\<open>CopyCommand.run\<close>: the boolean it returns, and the state it leaves.\<close>

definition CopyCommand_run :: "'fs env \<Rightarrow> CopyCommand \<Rightarrow> 'fs world \<Rightarrow> bool \<times> 'fs world" where
  "CopyCommand_run E cmd w =
     (let lastSlashIndex = rfind (destinationPath cmd) CHR ''/'';
          destinationFolder = slice_to (destinationPath cmd) lastSlashIndex;
          made =
            (if \<not> os_path_isdir E (fs w) destinationFolder then
               (case os_makedirs E (fs w) destinationFolder of
                  (Some osErrorException, f) \<Rightarrow>
                    Inl (w\<lparr>fs := f,
                           console := console w @ [StderrWrite (osErrorException @ [CHR 0x0A])]\<rparr>)
                | (None, f) \<Rightarrow> Inr (w\<lparr>fs := f\<rparr>))
             else Inr w)
      in case made of
           Inl w1 \<Rightarrow> (False, w1)
         | Inr w1 \<Rightarrow>
             (case shutil_copyfile E (fs w1) (sourcePath cmd) (destinationPath cmd) of
                (Some ioErrorException, f) \<Rightarrow>
                  (False, w1\<lparr>fs := f,
                             console := console w1 @ [StderrWrite (ioErrorException @ [CHR 0x0A])]\<rparr>)
              | (None, f) \<Rightarrow> (True, w1\<lparr>fs := f\<rparr>)))"

subsection \<open>\<^verbatim>\<open>class MediaCategory\<close>\<close>

text \<open>\<^verbatim>\<open>re.search(re.escape(extension) + "$", path, re.IGNORECASE) is not None\<close>:
  \<^verbatim>\<open>$\<close> matches at the end of the path, and before a newline that ends it.\<close>

definition extension_search :: "string \<Rightarrow> string \<Rightarrow> bool" where
  "extension_search extension path =
     (endswith (lower path) (lower extension) \<or>
      endswith (lower path) (lower extension @ [CHR 0x0A]))"

text \<open>The \<^verbatim>\<open>for\<close> loop of \<^verbatim>\<open>belongs\<close>, with its \<^verbatim>\<open>break\<close>.\<close>

fun belongs_loop :: "bool \<Rightarrow> string list \<Rightarrow> string \<Rightarrow> bool" where
  "belongs_loop extensionFound [] path = extensionFound"
| "belongs_loop extensionFound (extension # rest) path =
     (if extension_search extension path then True
      else belongs_loop extensionFound rest path)"

text \<open>
  \<^verbatim>\<open>MediaCategory.belongs\<close>. Its first line reads \<^verbatim>\<open>extensions\<close>, not
  \<^verbatim>\<open>self.extensions\<close>: that is the module-level variable of the same name, passed
  here as the first argument (\<open>None\<close> is Python's \<^verbatim>\<open>None\<close>, \<open>Some xs\<close> a list).
\<close>

definition belongs :: "string list option \<Rightarrow> MediaCategory \<Rightarrow> string \<Rightarrow> bool" where
  "belongs module_extensions self path =
     (let extensionFound = belongs_loop (module_extensions = None) (extensions self) path
      in if \<not> extensionFound then False
         else (case exclusionRegex self of
                 Some search \<Rightarrow> \<not> search path
               | None \<Rightarrow> True))"

subsection \<open>The database\<close>

text \<open>
  \<^verbatim>\<open>commit()\<close> on the connection makes what the connection sees the table on disk,
  unless SQLite raises; then the table on disk stays as it was.
\<close>

definition commit :: "'fs env \<Rightarrow> 'fs world \<Rightarrow> (exn \<times> 'fs world) + 'fs world" where
  "commit E w =
     (case sqlite_commit_error E (rows w) of
        Some msg \<Rightarrow> Inl (sqlite3_Error msg, w)
      | None \<Rightarrow> Inr (w\<lparr>committed := rows w\<rparr>))"

text \<open>
  \<^verbatim>\<open>openDB\<close>: the connection sees the table as it is on disk (created empty if
  absent), and the schema statement is committed at once (line 98).
\<close>

definition openDB :: "'fs env \<Rightarrow> 'fs world \<Rightarrow> (exn \<times> 'fs world) + 'fs world" where
  "openDB E w = commit E (w\<lparr>rows := committed w\<rparr>)"

text \<open>\<^verbatim>\<open>SQLFindQueryTemplate\<close>, executed and fetched: is there a row with this
  sourcePath and this categoryName?\<close>

definition SQLFind :: "row list \<Rightarrow> string \<Rightarrow> string \<Rightarrow> bool" where
  "SQLFind table sp cn = list_ex (\<lambda>(s, c, d, t). s = sp \<and> c = cn) table"

text \<open>\<^verbatim>\<open>SQLInsertQueryTemplate\<close>, executed: the row is appended, unless SQLite raises.\<close>

definition SQLInsert :: "'fs env \<Rightarrow> row \<Rightarrow> 'fs world \<Rightarrow> (exn \<times> 'fs world) + 'fs world" where
  "SQLInsert E values w =
     (case sqlite_insert_error E (rows w) values of
        Some msg \<Rightarrow> Inl (sqlite3_Error msg, w)
      | None \<Rightarrow> Inr (w\<lparr>rows := rows w @ [values]\<rparr>))"

subsection \<open>The module-level code\<close>

text \<open>A \<^verbatim>\<open>for\<close> loop whose body may raise: the exception ends the loop, and
  carries the state in which it was raised.\<close>

fun for_each ::
  "('a \<Rightarrow> 'w \<Rightarrow> ('e \<times> 'w) + 'w) \<Rightarrow> 'a list \<Rightarrow> 'w \<Rightarrow> ('e \<times> 'w) + 'w" where
  "for_each body [] w = Inr w"
| "for_each body (x # xs) w =
     (case body x w of
        Inl raised \<Rightarrow> Inl raised
      | Inr w1 \<Rightarrow> for_each body xs w1)"

text \<open>The body of the innermost loop (lines 186 to 204), for one file and one category.\<close>

definition category_step ::
  "'fs env \<Rightarrow> string list option \<Rightarrow> string \<Rightarrow> string \<Rightarrow> MediaCategory \<Rightarrow> 'fs world
     \<Rightarrow> (exn \<times> 'fs world) + 'fs world" where
  "category_step E module_extensions mediaSourcePath mediaFilePath category w =
     (if SQLFind (rows w) mediaFilePath (name category) then Inr w
      else if \<not> belongs module_extensions category mediaFilePath then Inr w
      else
        (case CopyCommand_init mediaSourcePath (destination category) mediaFilePath of
           Inl (printed, e) \<Rightarrow> Inl (e, w\<lparr>console := console w @ printed\<rparr>)
         | Inr copyCommand \<Rightarrow>
             (case CopyCommand_run E copyCommand w of
                (False, w1) \<Rightarrow> Inr w1
              | (True, w1) \<Rightarrow>
                  (let values = (mediaFilePath, name category, destinationPath copyCommand,
                                 datetime_now E (ticks w1));
                       w2 = w1\<lparr>ticks := Suc (ticks w1),
                               console := console w1 @ [PrintNewEntry values]\<rparr>
                   in SQLInsert E values w2))))"

text \<open>The four nested loops (lines 179 to 204).\<close>

definition sync ::
  "'fs env \<Rightarrow> string list option \<Rightarrow> MediaCategory list \<Rightarrow> string list \<Rightarrow> 'fs world
     \<Rightarrow> (exn \<times> 'fs world) + 'fs world" where
  "sync E module_extensions mediaCategories mediaSourcePaths =
     for_each (\<lambda>mediaSourcePath.
       for_each (\<lambda>(root, dirs, files).
         for_each (\<lambda>file.
           for_each (\<lambda>category.
               category_step E module_extensions mediaSourcePath
                 (os_path_join root file) category)
             mediaCategories)
           files)
         (os_walk E mediaSourcePath))
       mediaSourcePaths"

text \<open>
  A section of the parsed configuration: its name and its options. The loop of lines
  152 to 175 builds \<^verbatim>\<open>mediaCategories\<close>; it also leaves the module-level variable
  \<^verbatim>\<open>extensions\<close> that \<^verbatim>\<open>belongs\<close> reads, so the loop carries both. A missing
  \<^verbatim>\<open>destination\<close> reaches \<^verbatim>\<open>sys.stderr.write\<close> called with two arguments, which raises
  \<^verbatim>\<open>TypeError\<close>.
\<close>

type_synonym config_section = "string \<times> (string \<times> string) list"

definition reserved_section :: "string \<Rightarrow> bool" where
  "reserved_section s = prefix ''media'' (lower s)"

fun init_categories ::
  "'fs env \<Rightarrow> config_section list \<Rightarrow> MediaCategory list \<times> string list option
     \<Rightarrow> exn + MediaCategory list \<times> string list option" where
  "init_categories E [] (mediaCategories, module_extensions) =
     Inr (mediaCategories, module_extensions)"
| "init_categories E ((section, options) # rest) (mediaCategories, module_extensions) =
     (if reserved_section section then
        init_categories E rest (mediaCategories, module_extensions)
      else
        (let extensions' =
               (case map_of options ''extensions'' of
                  Some v \<Rightarrow> split_comma v
                | None \<Rightarrow> [])
         in case map_of options ''destination'' of
              None \<Rightarrow> Inl (TypeError ''write() takes exactly one argument (2 given)'')
            | Some d \<Rightarrow>
                (case map_of options ''exclude'' of
                   None \<Rightarrow>
                     init_categories E rest
                       (mediaCategories @
                          [\<lparr>name = section, extensions = extensions',
                            destination = os_path_expanduser E d, exclusionRegex = None\<rparr>],
                        Some extensions')
                 | Some pattern \<Rightarrow>
                     (case re_compile E pattern of
                        None \<Rightarrow> Inl (re_error pattern)
                      | Some search \<Rightarrow>
                          init_categories E rest
                            (mediaCategories @
                               [\<lparr>name = section, extensions = extensions',
                                 destination = os_path_expanduser E d,
                                 exclusionRegex = Some search\<rparr>],
                             Some extensions')))))"

text \<open>
  The script from line 136 on, given the sections of the configuration and the source
  folders (\<^verbatim>\<open>mediaSourcePaths\<close> after line 146).
\<close>

definition mediasync ::
  "'fs env \<Rightarrow> config_section list \<Rightarrow> string list \<Rightarrow> 'fs world \<Rightarrow> (exn \<times> 'fs world) + 'fs world" where
  "mediasync E sections mediaSourcePaths w =
     (if int (length sections) - 2 = 0 then
        Inl (SystemExit 0,
             w\<lparr>console := console w @ [Print ''No media categorie(s) defined; nothing to do.'']\<rparr>)
      else
        (case openDB E w of
           Inl raised \<Rightarrow> Inl raised
         | Inr w1 \<Rightarrow>
             (case init_categories E sections ([], None) of
                Inl e \<Rightarrow> Inl (e, w1)
              | Inr (mediaCategories, module_extensions) \<Rightarrow>
                  (case sync E module_extensions mediaCategories mediaSourcePaths w1 of
                     Inl raised \<Rightarrow> Inl raised
                   | Inr w2 \<Rightarrow> commit E w2))))"

subsection \<open>Notions used to state the properties\<close>

text \<open>The state a run ends in, whether it returned or raised.\<close>

definition final_world :: "('e \<times> 'w) + 'w \<Rightarrow> 'w" where
  "final_world r = (case r of Inl (e, w) \<Rightarrow> w | Inr w \<Rightarrow> w)"

text \<open>The key of a row: its sourcePath and its categoryName.\<close>

definition row_key :: "row \<Rightarrow> string \<times> string" where
  "row_key r = (fst r, fst (snd r))"

text \<open>The (source folder, file path, category) triples in the order in which the four
  loops of \<^const>\<open>sync\<close> visit them.\<close>

definition pairs ::
  "'fs env \<Rightarrow> MediaCategory list \<Rightarrow> string list \<Rightarrow> (string \<times> string \<times> MediaCategory) list" where
  "pairs E mediaCategories mediaSourcePaths =
     concat (map (\<lambda>mediaSourcePath.
       concat (map (\<lambda>(root, dirs, files).
         concat (map (\<lambda>file.
           map (\<lambda>category. (mediaSourcePath, os_path_join root file, category))
             mediaCategories)
           files))
         (os_walk E mediaSourcePath)))
       mediaSourcePaths)"

definition pair_step ::
  "'fs env \<Rightarrow> string list option \<Rightarrow> string \<times> string \<times> MediaCategory \<Rightarrow> 'fs world
     \<Rightarrow> (exn \<times> 'fs world) + 'fs world" where
  "pair_step E module_extensions p w =
     (case p of (mediaSourcePath, mediaFilePath, category) \<Rightarrow>
        category_step E module_extensions mediaSourcePath mediaFilePath category w)"

text \<open>The folder \<^const>\<open>CopyCommand_run\<close> computes from the destination path.\<close>

definition destinationFolder :: "CopyCommand \<Rightarrow> string" where
  "destinationFolder cmd = slice_to (destinationPath cmd) (rfind (destinationPath cmd) CHR ''/'')"

text \<open>The texts written to \<^verbatim>\<open>sys.stderr\<close>.\<close>

fun is_diagnostic :: "event \<Rightarrow> bool" where
  "is_diagnostic (StderrWrite msg) = True"
| "is_diagnostic (Print line) = False"
| "is_diagnostic (PrintNewEntry values) = False"

definition diagnostics :: "'fs world \<Rightarrow> event list" where
  "diagnostics w = filter is_diagnostic (console w)"

text \<open>
  A directory walk as \<^verbatim>\<open>os.walk\<close> yields it: every root starts with the source folder
  the walk was asked for, and no file name starts with a separator.
\<close>

definition walk_rooted :: "'fs env \<Rightarrow> string list \<Rightarrow> bool" where
  "walk_rooted E mediaSourcePaths =
     list_all (\<lambda>mediaSourcePath.
       list_all (\<lambda>(root, dirs, files).
           prefix mediaSourcePath root \<and> list_all (\<lambda>file. \<not> prefix ''/'' file) files)
         (os_walk E mediaSourcePath))
       mediaSourcePaths"

text \<open>
  What every step keeps of the table, relative to the state \<open>w0\<close> in which a loop
  started: nothing is committed, the rows of \<open>w0\<close> are still there, in place and
  unchanged, and if their keys were pairwise different then so are the keys now.
\<close>

definition ledger_inv :: "'fs world \<Rightarrow> 'fs world \<Rightarrow> bool" where
  "ledger_inv w0 w = (committed w = committed w0 \<and> prefix (rows w0) (rows w)
      \<and> (distinct (map row_key (rows w0)) \<longrightarrow> distinct (map row_key (rows w))))"

subsection \<open>An environment in memory\<close>

text \<open>
  A small file system: regular files with their content, and directories. The
  environment built on it takes the directory walk and the failures of \<^verbatim>\<open>INSERT\<close> as
  parameters; its clock stands still, its commits succeed, and it compiles a pattern to a
  literal search.
\<close>

record memfs =
  mem_files :: "(string \<times> string) list"
  mem_dirs :: "string list"

definition mem_env ::
  "(string \<Rightarrow> (string \<times> string list \<times> string list) list)
     \<Rightarrow> (row list \<Rightarrow> row \<Rightarrow> string option) \<Rightarrow> memfs env" where
  "mem_env walk insert_error =
     \<lparr>os_walk = walk,
      os_path_isdir = (\<lambda>f p. p \<in> set (mem_dirs f)),
      os_makedirs = (\<lambda>f p.
        if p = [] \<or> map_of (mem_files f) p \<noteq> None
        then (Some ''[Errno 17] File exists'', f)
        else (None, f\<lparr>mem_dirs := p # mem_dirs f\<rparr>)),
      shutil_copyfile = (\<lambda>f src dst.
        case map_of (mem_files f) src of
          None \<Rightarrow> (Some ''[Errno 2] No such file or directory'', f)
        | Some content \<Rightarrow>
            if dst \<in> set (mem_dirs f) then (Some ''[Errno 21] Is a directory'', f)
            else (None, f\<lparr>mem_files := (dst, content) # mem_files f\<rparr>)),
      datetime_now = (\<lambda>n. ''2012-06-01T12:00:00''),
      sqlite_insert_error = insert_error,
      sqlite_commit_error = (\<lambda>table. None),
      os_path_expanduser = (\<lambda>p. p),
      re_compile = (\<lambda>pattern. Some (str_contains pattern))\<rparr>"

text \<open>
  The same environment with files that cannot be written: \<^verbatim>\<open>shutil.copyfile\<close> to an
  existing file that is read-only raises, as opening it for writing does.
\<close>

definition mem_env_readonly ::
  "string list \<Rightarrow> (string \<Rightarrow> (string \<times> string list \<times> string list) list)
     \<Rightarrow> (row list \<Rightarrow> row \<Rightarrow> string option) \<Rightarrow> memfs env" where
  "mem_env_readonly readonly walk insert_error =
     (mem_env walk insert_error)
       \<lparr>shutil_copyfile := (\<lambda>f src dst.
          if dst \<in> set readonly \<and> map_of (mem_files f) dst \<noteq> None
          then (Some ''[Errno 13] Permission denied'', f)
          else shutil_copyfile (mem_env walk insert_error) f src dst)\<rparr>"

subsection \<open>Sample runs\<close>

text \<open>
  One category, \<^verbatim>\<open>movies\<close>, for the extension \<^verbatim>\<open>mkv\<close>; a source folder with a text
  file and, one level down, a film; a second source folder with two films, fresh, with
  the first film already recorded, with the first film missing, and with a file already
  at the first film's destination; and a database that cannot be written.
\<close>

definition movies :: MediaCategory where
  "movies = \<lparr>name = ''movies'', extensions = [''mkv''], destination = ''/dst/movies'',
             exclusionRegex = None\<rparr>"

definition config :: "config_section list" where
  "config =
     [(''media_database'', [(''db_path'', ''/db'')]),
      (''media_sources'', [(''source_paths'', ''/src'')]),
      (''movies'', [(''extensions'', ''mkv''), (''destination'', ''/dst/movies'')])]"

definition walk_src :: "string \<Rightarrow> (string \<times> string list \<times> string list) list" where
  "walk_src p =
     (if p = ''/src'' then [(''/src'', [''a''], [''notes.txt'']), (''/src/a'', [], [''movie.mkv''])]
      else [])"

definition no_insert_error :: "row list \<Rightarrow> row \<Rightarrow> string option" where
  "no_insert_error table values = None"

definition disk_full :: "row list \<Rightarrow> row \<Rightarrow> string option" where
  "disk_full table values = Some ''database or disk is full''"

text \<open>An environment whose commits raise once the table holds a row.\<close>

definition commit_fails :: "memfs env \<Rightarrow> memfs env" where
  "commit_fails E =
     E\<lparr>sqlite_commit_error := (\<lambda>table. if table = [] then None else Some ''disk I/O error'')\<rparr>"

definition fs0 :: memfs where
  "fs0 = \<lparr>mem_files = [(''/src/notes.txt'', ''TEXT''), (''/src/a/movie.mkv'', ''DATA'')],
          mem_dirs = [''/src'', ''/src/a'']\<rparr>"

definition fs1 :: memfs where
  "fs1 = \<lparr>mem_files = [(''/dst/movies/a/movie.mkv'', ''DATA''), (''/src/notes.txt'', ''TEXT''),
                       (''/src/a/movie.mkv'', ''DATA'')],
          mem_dirs = [''/dst/movies/a'', ''/src'', ''/src/a'']\<rparr>"

definition movie_row :: row where
  "movie_row = (''/src/a/movie.mkv'', ''movies'', ''/dst/movies/a/movie.mkv'', ''2012-06-01T12:00:00'')"

definition world0 :: "memfs world" where
  "world0 = \<lparr>fs = fs0, rows = [], committed = [], console = [], ticks = 0\<rparr>"

definition world1 :: "memfs world" where
  "world1 = \<lparr>fs = fs1, rows = [movie_row], committed = [movie_row],
             console = [PrintNewEntry movie_row], ticks = 1\<rparr>"

definition walk_two :: "string \<Rightarrow> (string \<times> string list \<times> string list) list" where
  "walk_two p = (if p = ''/src'' then [(''/src'', [], [''a.mkv'', ''b.mkv''])] else [])"

definition a_row :: row where
  "a_row = (''/src/a.mkv'', ''movies'', ''/dst/movies/a.mkv'', ''2012-05-31T09:00:00'')"

definition b_row :: row where
  "b_row = (''/src/b.mkv'', ''movies'', ''/dst/movies/b.mkv'', ''2012-06-01T12:00:00'')"

definition world_two :: "memfs world" where
  "world_two =
     \<lparr>fs = \<lparr>mem_files = [(''/src/a.mkv'', ''A''), (''/src/b.mkv'', ''B'')], mem_dirs = [''/src'']\<rparr>,
      rows = [], committed = [], console = [], ticks = 0\<rparr>"

definition world_missing :: "memfs world" where
  "world_missing =
     \<lparr>fs = \<lparr>mem_files = [(''/src/b.mkv'', ''B'')], mem_dirs = [''/src'']\<rparr>,
      rows = [], committed = [], console = [], ticks = 0\<rparr>"

definition world_recorded :: "memfs world" where
  "world_recorded =
     \<lparr>fs = \<lparr>mem_files = [(''/src/a.mkv'', ''A''), (''/src/b.mkv'', ''B'')], mem_dirs = [''/src'']\<rparr>,
      rows = [], committed = [a_row], console = [], ticks = 0\<rparr>"

definition world_fresh :: "memfs world" where
  "world_fresh =
     \<lparr>fs = \<lparr>mem_files = [(''/src/a.mkv'', ''A'')], mem_dirs = [''/dst/movies'', ''/src'']\<rparr>,
      rows = [], committed = [], console = [], ticks = 0\<rparr>"

definition world_old :: "memfs world" where
  "world_old =
     \<lparr>fs = \<lparr>mem_files = [(''/dst/movies/a.mkv'', ''OLD''), (''/src/a.mkv'', ''A'')],
             mem_dirs = [''/dst/movies'', ''/src'']\<rparr>,
      rows = [], committed = [], console = [], ticks = 0\<rparr>"

section \<open>Properties\<close>

subsection \<open>Evaluating the model\<close>

lemmas run_simps =
  mediasync_def openDB_def commit_def sync_def category_step_def SQLFind_def SQLInsert_def
  belongs_def extension_search_def endswith_def lower_def ascii_lower_def reserved_section_def
  CopyCommand_init_def CopyCommand_run_def str_replace.simps slice_to_def os_path_join_def
  mem_env_def mem_env_readonly_def Let_def final_world_def

lemmas sample_simps =
  movies_def config_def walk_src_def no_insert_error_def disk_full_def fs0_def fs1_def
  movie_row_def world0_def world1_def walk_two_def world_two_def
  world_missing_def world_old_def a_row_def b_row_def world_recorded_def world_fresh_def
  commit_fails_def

lemmas ev = run_simps sample_simps pairs_def pair_step_def diagnostics_def row_key_def
  destinationFolder_def

subsection \<open>Loops\<close>

lemma for_each_append:
  "for_each body (xs @ ys) w =
     (case for_each body xs w of Inl raised \<Rightarrow> Inl raised | Inr w1 \<Rightarrow> for_each body ys w1)"
  by (induction xs arbitrary: w) (auto split: sum.splits)

lemma for_each_concat_map:
  "for_each body (concat (map f xs)) = for_each (\<lambda>x. for_each body (f x)) xs"
proof
  fix w
  show "for_each body (concat (map f xs)) w = for_each (\<lambda>x. for_each body (f x)) xs w"
    by (induction xs arbitrary: w) (auto simp: for_each_append split: sum.splits)
qed

lemma for_each_map:
  "for_each body (map f xs) = for_each (\<lambda>x. body (f x)) xs"
proof
  fix w
  show "for_each body (map f xs) w = for_each (\<lambda>x. body (f x)) xs w"
    by (induction xs arbitrary: w) (auto split: sum.splits)
qed

lemma pair_step_triple:
  "pair_step E g (src, file, cat) = category_step E g src file cat"
  by (rule ext) (simp add: pair_step_def)

text \<open>
  The four nested loops are one loop over the triples they visit.
\<close>

lemma sync_flat:
  "sync E g cats srcs = for_each (pair_step E g) (pairs E cats srcs)"
  unfolding sync_def pairs_def
  by (simp add: for_each_concat_map for_each_map pair_step_triple case_prod_unfold)

text \<open>
  A loop that has come through a first part of its list goes on with the body at the
  next element: what the body raises there ends the loop.
\<close>

lemma for_each_split:
  assumes "for_each body ps w0 = Inr w"
  shows "for_each body (ps @ p # qs) w0 =
           (case body p w of Inl raised \<Rightarrow> Inl raised | Inr w1 \<Rightarrow> for_each body qs w1)"
  using assms by (simp add: for_each_append)

text \<open>
  What every step keeps, the loop keeps, whether it returns or raises.
\<close>

lemma for_each_final:
  assumes "\<And>x w. x \<in> set xs \<Longrightarrow> P w \<Longrightarrow> P (final_world (body x w))" and "P w"
  shows "P (final_world (for_each body xs w))"
  using assms
proof (induction xs arbitrary: w)
  case Nil
  then show ?case by (simp add: final_world_def)
next
  case (Cons x xs)
  show ?case
  proof (cases "body x w")
    case (Inl r)
    with Cons.prems(1) [of x w] Cons.prems(2) show ?thesis by simp
  next
    case (Inr w1)
    with Cons.prems(1) [of x w] Cons.prems(2) have "P w1" by (simp add: final_world_def)
    with Cons.IH [of w1] Cons.prems(1) Inr show ?thesis by simp
  qed
qed

text \<open>
  From line 148 on, a run is the four loops on the opened database, then the commit. A
  commit changes nothing but the table on disk, and that only when it does not raise.
\<close>

lemma mediasync_sync:
  assumes "int (length secs) - 2 \<noteq> 0" and "openDB E w = Inr w1"
    and "init_categories E secs ([], None) = Inr (cats, g)"
  shows "mediasync E secs srcs w =
           (case sync E g cats srcs w1 of Inl raised \<Rightarrow> Inl raised | Inr w2 \<Rightarrow> commit E w2)"
  using assms by (simp add: mediasync_def)

lemma commit_Inr: "commit E w = Inr w' \<Longrightarrow> w' = w\<lparr>committed := rows w\<rparr>"
  by (auto simp: commit_def split: option.splits)

lemma commit_Inl: "commit E w = Inl (e, w') \<Longrightarrow> w' = w"
  by (auto simp: commit_def split: option.splits)

lemma openDB_Inr: "openDB E w = Inr w1 \<Longrightarrow> w1 = w\<lparr>rows := committed w\<rparr>"
  by (auto simp: openDB_def dest!: commit_Inr)

lemma openDB_Inl: "openDB E w = Inl (e, w1) \<Longrightarrow> w1 = w\<lparr>rows := committed w\<rparr>"
  by (auto simp: openDB_def dest!: commit_Inl)

subsection \<open>Category membership\<close>

lemma belongs_loop_iff:
  "belongs_loop b exts path \<longleftrightarrow> b \<or> list_ex (\<lambda>e. extension_search e path) exts"
  by (induction exts) auto

text \<open>
  What \<^const>\<open>belongs\<close> decides whenever the module-level \<^verbatim>\<open>extensions\<close> is a list:
  some extension of the category must match.
\<close>

lemma belongs_iff:
  "belongs (Some g) self path \<longleftrightarrow>
     list_ex (\<lambda>e. extension_search e path) (extensions self) \<and>
     (case exclusionRegex self of None \<Rightarrow> True | Some search \<Rightarrow> \<not> search path)"
  by (simp add: belongs_def belongs_loop_iff split: option.splits)

text \<open>
  The module-level \<^verbatim>\<open>extensions\<close> is a list as soon as one category exists.
\<close>

lemma init_categories_module_extensions:
  "init_categories E secs (cats, g) = Inr (cats', g') \<Longrightarrow> (cats \<noteq> [] \<longrightarrow> g \<noteq> None)
     \<Longrightarrow> (cats' \<noteq> [] \<longrightarrow> g' \<noteq> None)"
proof (induction secs arbitrary: cats g)
  case Nil
  then show ?case by simp
next
  case (Cons sec secs)
  obtain s opts where sec: "sec = (s, opts)" by (cases sec)
  show ?case
    using Cons.prems Cons.IH
    by (auto simp: sec Let_def split: if_splits option.splits)
qed

text \<open>
  C2. \<^verbatim>\<open>belongs\<close> is meant to accept every extension when the category lists none
  (line 162: ``No specified extensions = allow all''). The code does not: line 72
  compares the module-level \<^verbatim>\<open>extensions\<close>, which is always a list, with \<^verbatim>\<open>None\<close>, so
  a category without extensions rejects every path.
\<close>

theorem belongs_without_extensions_rejects:
  "extensions self = [] \<Longrightarrow> belongs (Some g) self path = False"
  by (simp add: belongs_def)

theorem belongs_without_extensions_rejects_witness:
  "extensions \<lparr>name = ''movies'', extensions = [], destination = ''/dst/movies'',
               exclusionRegex = None\<rparr> = []
   \<and> belongs (Some [])
        \<lparr>name = ''movies'', extensions = [], destination = ''/dst/movies'',
         exclusionRegex = None\<rparr> ''/src/a/movie.mkv'' = False"
  using belongs_without_extensions_rejects
    [of "\<lparr>name = ''movies'', extensions = [], destination = ''/dst/movies'',
          exclusionRegex = None\<rparr>" "[]" "''/src/a/movie.mkv''"]
  by simp

subsection \<open>Destination paths\<close>

lemma str_contains_iff: "str_contains sub s \<longleftrightarrow> (\<exists>a b. s = a @ sub @ b)"
proof (induction s)
  case Nil
  then show ?case by simp
next
  case (Cons c cs)
  show ?case
  proof
    assume "str_contains sub (c # cs)"
    then consider "prefix sub (c # cs)" | "str_contains sub cs" by auto
    then show "\<exists>a b. c # cs = a @ sub @ b"
    proof cases
      case 1
      then obtain b where "c # cs = sub @ b" by (auto simp: prefix_def)
      then have "c # cs = [] @ sub @ b" by simp
      then show ?thesis by blast
    next
      case 2
      with Cons.IH obtain a b where "cs = a @ sub @ b" by blast
      then have "c # cs = (c # a) @ sub @ b" by simp
      then show ?thesis by blast
    qed
  next
    assume "\<exists>a b. c # cs = a @ sub @ b"
    then obtain a b where ab: "c # cs = a @ sub @ b" by blast
    show "str_contains sub (c # cs)"
    proof (cases a)
      case Nil
      with ab have "prefix sub (c # cs)" by (simp add: prefix_def)
      then show ?thesis by simp
    next
      case (Cons x a')
      with ab have "cs = a' @ sub @ b" by simp
      with Cons.IH have "str_contains sub cs" by blast
      then show ?thesis by simp
    qed
  qed
qed

lemma str_replace_absent:
  "old \<noteq> [] \<Longrightarrow> \<not> str_contains old s \<Longrightarrow> str_replace old [] s = s"
proof (induction s)
  case Nil
  then show ?case by (simp add: str_replace.simps)
next
  case (Cons c cs)
  then show ?case by (subst str_replace.simps) auto
qed

text \<open>
  Where the derivation is right: the source root, not empty, starts the source path
  and does not occur again in the rest.
\<close>

lemma CopyCommand_init_plain:
  assumes "sourceRoot \<noteq> []" and "\<not> str_contains sourceRoot rest"
  shows "CopyCommand_init sourceRoot destinationRoot (sourceRoot @ rest)
           = Inr \<lparr>sourcePath = sourceRoot @ rest, destinationPath = destinationRoot @ rest\<rparr>"
proof -
  have "str_contains sourceRoot (sourceRoot @ rest)"
    unfolding str_contains_iff by (rule exI [of _ "[]"]) auto
  moreover have "str_replace sourceRoot [] (sourceRoot @ rest) = rest"
    using assms by (subst str_replace.simps) (simp add: str_replace_absent)
  ultimately show ?thesis by (simp add: CopyCommand_init_def)
qed

text \<open>
  C3. The destination path is meant to be the destination root followed by the part of
  the source path below the source root, whatever the trailing separators. The code
  deletes every occurrence of the source root and concatenates (line 32: ``TODO Check
  for trailing /''): a source root ending in a separator loses the separator, a
  destination root ending in one doubles it, and a folder below the source root that
  repeats the root's text is dropped.
\<close>

theorem CopyCommand_init_mangles_paths:
  "CopyCommand_init ''/src/'' ''/dst'' ''/src/a/movie.mkv''
     = Inr \<lparr>sourcePath = ''/src/a/movie.mkv'', destinationPath = ''/dsta/movie.mkv''\<rparr>
   \<and> CopyCommand_init ''/src'' ''/dst/'' ''/src/a/movie.mkv''
     = Inr \<lparr>sourcePath = ''/src/a/movie.mkv'', destinationPath = ''/dst//a/movie.mkv''\<rparr>
   \<and> CopyCommand_init ''/src'' ''/dst'' ''/src/a/src/b.mkv''
     = Inr \<lparr>sourcePath = ''/src/a/src/b.mkv'', destinationPath = ''/dst/a/b.mkv''\<rparr>"
  by (simp add: CopyCommand_init_def str_replace.simps)

text \<open>
  C5, as the claim states it, fails: construction succeeds for a source path that
  contains the source root elsewhere than at its start.
\<close>

theorem CopyCommand_init_counterexample:
  "CopyCommand_init ''/src'' ''/dst'' ''/mnt/src/a.mkv''
     = Inr \<lparr>sourcePath = ''/mnt/src/a.mkv'', destinationPath = ''/dst/mnt/a.mkv''\<rparr>
   \<and> \<not> prefix ''/src'' ''/mnt/src/a.mkv''"
  by (simp add: ev)

lemma prefix_str_contains: "prefix sub s \<Longrightarrow> str_contains sub s"
  unfolding str_contains_iff prefix_def by (metis append_Nil)

text \<open>In a walk as \<^verbatim>\<open>os.walk\<close> yields it, every file path starts with its source folder.\<close>

lemma pairs_rooted:
  assumes "walk_rooted E srcs" and "(src, path, cat) \<in> set (pairs E cats srcs)"
  shows "prefix src path"
proof -
  from assms(2) obtain root dirs files fname where
    "src \<in> set srcs" "(root, dirs, files) \<in> set (os_walk E src)" "fname \<in> set files"
    "path = os_path_join root fname"
    by (auto simp: pairs_def)
  moreover from this assms(1) have "prefix src root" "\<not> prefix ''/'' fname"
    by (fastforce simp: walk_rooted_def list_all_iff)+
  ultimately show ?thesis
    by (auto simp: os_path_join_def intro: prefix_prefix)
qed

text \<open>What a loop raises, its body raised at one of the elements.\<close>

lemma for_each_Inl:
  "for_each body xs w = Inl (e, w') \<Longrightarrow> \<exists>x\<in>set xs. \<exists>w1. body x w1 = Inl (e, w')"
  by (induction xs arbitrary: w) (auto split: sum.splits)

lemma category_step_raises:
  assumes "category_step E g src path cat w = Inl (e, w')" and "str_contains src path"
  shows "\<exists>msg. e = sqlite3_Error msg"
  using assms
  by (auto simp: category_step_def CopyCommand_init_def SQLInsert_def Let_def
        split: if_splits prod.splits bool.splits option.splits)

text \<open>
  C5, amended. Construction of a copy command fails, with the \<^verbatim>\<open>AssertionError\<close> of
  line 30, exactly when the source path does not contain the source root anywhere (as
  a substring, not only as a prefix), and succeeds otherwise. In a run, every file path
  built from the directory walk of a source folder starts with that folder, so
  construction succeeds for every pair, and no run ends with that error.
\<close>

theorem CopyCommand_init_fails_iff_not_substring:
  "((\<exists>printed. CopyCommand_init sourceRoot destinationRoot sp
        = Inl (printed, AssertionError ''sourcePath does not include sourceRoot''))
      \<longleftrightarrow> \<not> (\<exists>a b. sp = a @ sourceRoot @ b))
   \<and> ((\<exists>cmd. CopyCommand_init sourceRoot destinationRoot sp = Inr cmd)
      \<longleftrightarrow> (\<exists>a b. sp = a @ sourceRoot @ b))
   \<and> (walk_rooted E srcs \<longrightarrow>
        (\<forall>(src, path, cat)\<in>set (pairs E cats srcs).
           prefix src path \<and> (\<exists>cmd. CopyCommand_init src (destination cat) path = Inr cmd)))
   \<and> (walk_rooted E srcs \<longrightarrow> (\<forall>msg w'. sync E g cats srcs w \<noteq> Inl (AssertionError msg, w')))"
proof (intro conjI impI)
  show "(\<exists>printed. CopyCommand_init sourceRoot destinationRoot sp
        = Inl (printed, AssertionError ''sourcePath does not include sourceRoot''))
      \<longleftrightarrow> \<not> (\<exists>a b. sp = a @ sourceRoot @ b)"
    by (simp add: CopyCommand_init_def str_contains_iff)
next
  show "(\<exists>cmd. CopyCommand_init sourceRoot destinationRoot sp = Inr cmd)
      \<longleftrightarrow> (\<exists>a b. sp = a @ sourceRoot @ b)"
    by (simp add: CopyCommand_init_def str_contains_iff)
next
  assume r: "walk_rooted E srcs"
  show "\<forall>(src, path, cat)\<in>set (pairs E cats srcs).
           prefix src path \<and> (\<exists>cmd. CopyCommand_init src (destination cat) path = Inr cmd)"
  proof (clarify, rule conjI)
    fix src path cat
    assume "(src, path, cat) \<in> set (pairs E cats srcs)"
    with r show p: "prefix src path" by (rule pairs_rooted)
    then have "str_contains src path" by (rule prefix_str_contains)
    then show "\<exists>cmd. CopyCommand_init src (destination cat) path = Inr cmd"
      by (simp add: CopyCommand_init_def)
  qed
next
  assume r: "walk_rooted E srcs"
  show "\<forall>msg w'. sync E g cats srcs w \<noteq> Inl (AssertionError msg, w')"
  proof (intro allI notI)
    fix msg w'
    assume "sync E g cats srcs w = Inl (AssertionError msg, w')"
    then obtain p w1 where p: "p \<in> set (pairs E cats srcs)"
      and raised: "pair_step E g p w1 = Inl (AssertionError msg, w')"
      unfolding sync_flat by (blast dest: for_each_Inl)
    obtain src path cat where t: "p = (src, path, cat)" by (cases p)
    from r p t have "str_contains src path"
      by (auto intro: prefix_str_contains pairs_rooted)
    with raised t category_step_raises [of E g src path cat w1 "AssertionError msg" w']
    show False by (simp add: pair_step_triple)
  qed
qed

theorem CopyCommand_init_fails_iff_not_substring_witness:
  "CopyCommand_init ''/src'' ''/dst/movies'' ''/mnt/media/a.mkv''
     = Inl ([Print ''sourceRoot: /src'', Print ''destinationRoot: /dst/movies'',
             Print ''sourcePath: /mnt/media/a.mkv''],
            AssertionError ''sourcePath does not include sourceRoot'')
   \<and> \<not> (\<exists>a b. ''/mnt/media/a.mkv'' = a @ ''/src'' @ b)
   \<and> walk_rooted (mem_env walk_src no_insert_error) [''/src'']
   \<and> (''/src'', ''/src/a/movie.mkv'', movies)
        \<in> set (pairs (mem_env walk_src no_insert_error) [movies] [''/src''])
   \<and> prefix ''/src'' ''/src/a/movie.mkv''
   \<and> CopyCommand_init ''/src'' (destination movies) ''/src/a/movie.mkv''
     = Inr \<lparr>sourcePath = ''/src/a/movie.mkv'', destinationPath = ''/dst/movies/a/movie.mkv''\<rparr>
   \<and> sync (mem_env walk_src no_insert_error) (Some [''mkv'']) [movies] [''/src''] world0
     \<noteq> Inl (AssertionError ''sourcePath does not include sourceRoot'', world0)"
proof -
  let ?E = "mem_env walk_src no_insert_error"
  note t = CopyCommand_init_fails_iff_not_substring
    [where sourceRoot = "''/src''" and destinationRoot = "''/dst/movies''"
       and sp = "''/mnt/media/a.mkv''" and E = ?E and srcs = "[''/src'']" and cats = "[movies]"
       and g = "Some [''mkv'']" and w = world0]
  have i: "CopyCommand_init ''/src'' ''/dst/movies'' ''/mnt/media/a.mkv''
     = Inl ([Print ''sourceRoot: /src'', Print ''destinationRoot: /dst/movies'',
             Print ''sourcePath: /mnt/media/a.mkv''],
            AssertionError ''sourcePath does not include sourceRoot'')"
    by (simp add: ev)
  with t have n: "\<not> (\<exists>a b. ''/mnt/media/a.mkv'' = a @ ''/src'' @ b)" by blast
  have r: "walk_rooted ?E [''/src'']" by (simp add: walk_rooted_def ev)
  have m: "(''/src'', ''/src/a/movie.mkv'', movies) \<in> set (pairs ?E [movies] [''/src''])"
    by (simp add: ev)
  from t r m have p: "prefix ''/src'' ''/src/a/movie.mkv''" by blast
  have c: "CopyCommand_init ''/src'' (destination movies) ''/src/a/movie.mkv''
     = Inr \<lparr>sourcePath = ''/src/a/movie.mkv'', destinationPath = ''/dst/movies/a/movie.mkv''\<rparr>"
    by (simp add: ev)
  from t r have s: "sync ?E (Some [''mkv'']) [movies] [''/src''] world0
     \<noteq> Inl (AssertionError ''sourcePath does not include sourceRoot'', world0)"
    by blast
  from i n r m p c s show ?thesis by blast
qed

subsection \<open>Reserved section names\<close>

text \<open>
  C8, as the claim states it, fails: a section whose name collides with the reserved
  names does not make rule construction fail. Here \<^verbatim>\<open>media_sources\<close> itself carries the
  options of a category and \<^verbatim>\<open>Media_Movies\<close> is meant as one; the run returns normally,
  prints nothing, copies nothing and records nothing.
\<close>

theorem reserved_section_counterexample:
  "mediasync
     (mem_env (\<lambda>p. if p = ''/src'' then [(''/src'', [], [''movie.mkv''])] else [])
        (\<lambda>table values. None))
     [(''media_database'', [(''db_path'', ''/db'')]),
      (''media_sources'',
         [(''source_paths'', ''/src''), (''extensions'', ''mkv''), (''destination'', ''/dst/a'')]),
      (''Media_Movies'', [(''extensions'', ''mkv''), (''destination'', ''/dst/movies'')])]
     [''/src'']
     \<lparr>fs = \<lparr>mem_files = [(''/src/movie.mkv'', ''DATA'')], mem_dirs = [''/src'']\<rparr>,
      rows = [], committed = [], console = [], ticks = 0\<rparr>
   = Inr \<lparr>fs = \<lparr>mem_files = [(''/src/movie.mkv'', ''DATA'')], mem_dirs = [''/src'']\<rparr>,
          rows = [], committed = [], console = [], ticks = 0\<rparr>"
  by (simp add: run_simps)

text \<open>
  C8, amended. A section whose name starts with \<^verbatim>\<open>media\<close>, in any letter case, is
  skipped by the loop that builds the categories: whatever its options, no category is
  built for it and nothing is raised, and the loop goes on with the next section.
\<close>

theorem reserved_section_skipped:
  "reserved_section s \<Longrightarrow>
     init_categories E ((s, opts) # rest) acc = init_categories E rest acc"
  by (cases acc) simp

theorem reserved_section_skipped_witness:
  "reserved_section ''Media_Movies''
   \<and> init_categories (mem_env (\<lambda>p. []) (\<lambda>table values. None))
        ((''Media_Movies'', [(''extensions'', ''mkv''), (''destination'', ''/dst/movies'')]) # [])
        ([], None)
     = init_categories (mem_env (\<lambda>p. []) (\<lambda>table values. None)) [] ([], None)"
proof -
  have r: "reserved_section ''Media_Movies''"
    by (simp add: reserved_section_def lower_def ascii_lower_def)
  show ?thesis
    using r reserved_section_skipped [OF r] by simp
qed

subsection \<open>The table\<close>

lemma SQLFind_iff: "SQLFind t sp cn \<longleftrightarrow> (sp, cn) \<in> set (map row_key t)"
  by (force simp: SQLFind_def row_key_def list_ex_iff)

lemma SQLFind_append: "SQLFind (t @ u) sp cn \<longleftrightarrow> SQLFind t sp cn \<or> SQLFind u sp cn"
  by (auto simp: SQLFind_iff)

lemma SQLFind_prefix: "prefix t t' \<Longrightarrow> SQLFind t sp cn \<Longrightarrow> SQLFind t' sp cn"
  by (auto simp: prefix_def SQLFind_append)

lemma CopyCommand_run_frame:
  "rows (snd (CopyCommand_run E cmd w)) = rows w"
  "committed (snd (CopyCommand_run E cmd w)) = committed w"
  "ticks (snd (CopyCommand_run E cmd w)) = ticks w"
  by (auto simp: CopyCommand_run_def Let_def split: prod.splits option.splits sum.splits if_splits)

lemma CopyCommand_run_frame':
  assumes "CopyCommand_run E cmd w = (b, w1)"
  shows "rows w1 = rows w" "committed w1 = committed w" "ticks w1 = ticks w"
  using CopyCommand_run_frame [of E cmd w] assms by simp_all

text \<open>
  The outcomes of one step: it leaves the table alone, or appends one row whose key
  was not in the table.
\<close>

lemma category_step_outcomes:
  "category_step E g src path cat w = Inr w
   \<or> (\<exists>printed e. category_step E g src path cat w = Inl (e, w\<lparr>console := console w @ printed\<rparr>))
   \<or> (\<exists>w1. category_step E g src path cat w = Inr w1 \<and> rows w1 = rows w \<and> committed w1 = committed w)
   \<or> (\<exists>e w1. category_step E g src path cat w = Inl (e, w1) \<and> rows w1 = rows w \<and> committed w1 = committed w)
   \<or> (\<exists>w1 d t. category_step E g src path cat w = Inr w1 \<and> \<not> SQLFind (rows w) path (name cat)
         \<and> rows w1 = rows w @ [(path, name cat, d, t)] \<and> committed w1 = committed w)"
proof (cases "SQLFind (rows w) path (name cat) \<or> \<not> belongs g cat path")
  case True
  then show ?thesis by (auto simp: category_step_def)
next
  case False
  show ?thesis
  proof (cases "CopyCommand_init src (destination cat) path")
    case (Inl pe)
    with False show ?thesis by (cases pe) (auto simp: category_step_def)
  next
    case (Inr cmd)
    obtain b w1 where run: "CopyCommand_run E cmd w = (b, w1)" by (cases "CopyCommand_run E cmd w")
    note fr = CopyCommand_run_frame' [OF run]
    show ?thesis
      using False Inr run fr
      by (cases b) (auto simp: category_step_def SQLInsert_def Let_def split: option.splits)
  qed
qed

lemma category_step_committed:
  "committed (final_world (category_step E g src path cat w)) = committed w"
  using category_step_outcomes [of E g src path cat w]
  by (auto simp: final_world_def)

lemma category_step_rows:
  "rows (final_world (category_step E g src path cat w)) = rows w
   \<or> (\<not> SQLFind (rows w) path (name cat)
       \<and> (\<exists>d t. rows (final_world (category_step E g src path cat w)) = rows w @ [(path, name cat, d, t)]))"
  using category_step_outcomes [of E g src path cat w]
  by (auto simp: final_world_def)

lemma pair_step_ledger_inv:
  assumes "ledger_inv w0 w"
  shows "ledger_inv w0 (final_world (pair_step E g p w))"
proof -
  obtain src path cat where p: "p = (src, path, cat)" by (cases p)
  show ?thesis
    using assms category_step_rows [of E g src path cat w] category_step_committed [of E g src path cat w]
    by (auto simp: ledger_inv_def p pair_step_triple SQLFind_iff row_key_def prefix_def)
qed

lemma ledger_inv_refl: "ledger_inv w w"
  by (simp add: ledger_inv_def)

lemma for_each_ledger_inv: "ledger_inv w (final_world (for_each (pair_step E g) ps w))"
proof (rule for_each_final [where P = "ledger_inv w"])
  fix x w'
  assume "ledger_inv w w'"
  then show "ledger_inv w (final_world (pair_step E g x w'))"
    by (rule pair_step_ledger_inv)
next
  show "ledger_inv w w" by (rule ledger_inv_refl)
qed

lemma sync_ledger_inv: "ledger_inv w (final_world (sync E g cats srcs w))"
  unfolding sync_flat by (rule for_each_ledger_inv)

lemma mediasync_committed_raised:
  assumes "mediasync E secs srcs w = Inl (e, w')"
  shows "committed w' = committed w"
proof (cases "int (length secs) - 2 = 0")
  case True
  with assms show ?thesis by (auto simp: mediasync_def)
next
  case ne: False
  show ?thesis
  proof (cases "openDB E w")
    case (Inl ew)
    with ne assms have "openDB E w = Inl (e, w')" by (simp add: mediasync_def)
    then show ?thesis by (auto dest: openDB_Inl)
  next
    case (Inr w1)
    then have w1: "committed w1 = committed w" by (auto dest: openDB_Inr)
    show ?thesis
    proof (cases "init_categories E secs ([], None)")
      case (Inl x)
      with ne Inr assms w1 show ?thesis by (auto simp: mediasync_def)
    next
      case init: (Inr cg)
      obtain cats g where cg: "cg = (cats, g)" by (cases cg)
      have inv: "ledger_inv w1 (final_world (sync E g cats srcs w1))"
        by (rule sync_ledger_inv)
      note m = assms [unfolded mediasync_sync [OF ne Inr init [unfolded cg]]]
      show ?thesis
      proof (cases "sync E g cats srcs w1")
        case (Inl ew)
        with m inv w1 show ?thesis by (simp add: final_world_def ledger_inv_def)
      next
        case (Inr w2)
        with m have "commit E w2 = Inl (e, w')" by simp
        then have "w' = w2" by (rule commit_Inl)
        with Inr inv w1 show ?thesis by (simp add: final_world_def ledger_inv_def)
      qed
    qed
  qed
qed

lemma mediasync_committed_returned:
  assumes "mediasync E secs srcs w = Inr w'"
  shows "committed w' = rows w' \<and> prefix (committed w) (rows w')
    \<and> (distinct (map row_key (committed w)) \<longrightarrow> distinct (map row_key (rows w')))"
proof -
  from assms have ne: "int (length secs) - 2 \<noteq> 0" by (auto simp: mediasync_def split: if_splits)
  from assms ne obtain w1 where o: "openDB E w = Inr w1"
    by (cases "openDB E w") (auto simp: mediasync_def)
  then have w1: "rows w1 = committed w" by (auto dest: openDB_Inr)
  from assms ne o obtain cats g where init: "init_categories E secs ([], None) = Inr (cats, g)"
    by (cases "init_categories E secs ([], None)") (auto simp: mediasync_def)
  from assms obtain w2 where s: "sync E g cats srcs w1 = Inr w2" and c: "commit E w2 = Inr w'"
    unfolding mediasync_sync [OF ne o init] by (auto split: sum.splits)
  have "ledger_inv w1 (final_world (sync E g cats srcs w1))"
    by (rule sync_ledger_inv)
  with s w1 commit_Inr [OF c] show ?thesis by (simp add: final_world_def ledger_inv_def)
qed

text \<open>
  C7. If the keys (sourcePath, categoryName) of the table on disk are pairwise
  different before a run, they are pairwise different after it, however the run ends;
  and the table before the run is a prefix of the table after it: rows are only
  appended, none is changed or removed.
\<close>

theorem ledger_unique_and_append_only:
  assumes "distinct (map row_key (committed w))"
  shows "distinct (map row_key (committed (final_world (mediasync E secs srcs w))))
    \<and> prefix (committed w) (committed (final_world (mediasync E secs srcs w)))"
proof (cases "mediasync E secs srcs w")
  case (Inl ew)
  obtain e w' where ew: "ew = (e, w')" by (cases ew)
  from mediasync_committed_raised [OF Inl [unfolded ew]] assms Inl ew show ?thesis
    by (simp add: final_world_def)
next
  case (Inr w')
  from mediasync_committed_returned [OF Inr] assms Inr show ?thesis
    by (simp add: final_world_def)
qed

theorem ledger_unique_and_append_only_witness:
  "distinct (map row_key (committed world_recorded))
   \<and> committed world_recorded = [a_row]
   \<and> mediasync (mem_env walk_two no_insert_error) config [''/src''] world_recorded
     = Inr \<lparr>fs = \<lparr>mem_files = [(''/dst/movies/b.mkv'', ''B''), (''/src/a.mkv'', ''A''),
                                (''/src/b.mkv'', ''B'')],
                  mem_dirs = [''/dst/movies'', ''/src'']\<rparr>,
            rows = [a_row, b_row], committed = [a_row, b_row],
            console = [PrintNewEntry b_row], ticks = 1\<rparr>
   \<and> distinct (map row_key (committed (final_world
        (mediasync (mem_env walk_two no_insert_error) config [''/src''] world_recorded))))
   \<and> prefix (committed world_recorded) (committed (final_world
        (mediasync (mem_env walk_two no_insert_error) config [''/src''] world_recorded)))
   \<and> map row_key (committed (final_world
        (mediasync (mem_env walk_two no_insert_error) config [''/src''] world_recorded)))
     = [(''/src/a.mkv'', ''movies''), (''/src/b.mkv'', ''movies'')]"
proof -
  have h: "distinct (map row_key (committed world_recorded))" by (simp add: ev)
  have c: "committed world_recorded = [a_row]" by (simp add: ev)
  have v: "mediasync (mem_env walk_two no_insert_error) config [''/src''] world_recorded
     = Inr \<lparr>fs = \<lparr>mem_files = [(''/dst/movies/b.mkv'', ''B''), (''/src/a.mkv'', ''A''),
                                (''/src/b.mkv'', ''B'')],
                  mem_dirs = [''/dst/movies'', ''/src'']\<rparr>,
            rows = [a_row, b_row], committed = [a_row, b_row],
            console = [PrintNewEntry b_row], ticks = 1\<rparr>"
    by (simp add: ev)
  have k: "map row_key (committed (final_world
        (mediasync (mem_env walk_two no_insert_error) config [''/src''] world_recorded)))
     = [(''/src/a.mkv'', ''movies''), (''/src/b.mkv'', ''movies'')]"
    unfolding v by (simp add: ev)
  from ledger_unique_and_append_only [OF h, of "mem_env walk_two no_insert_error" config "[''/src'']"]
    h c v k show ?thesis by blast
qed

text \<open>
  C10. A pair that a step has recorded is found by the check of line 187 from then on,
  in the same run: after that step and any further steps, the find query on the
  connection answers true for it, and a later visit of the same file and category name
  is skipped, although nothing has been committed since the run began. The loops never
  commit, and opening the database (which commits the schema statement) leaves the
  table on disk as it was. A run that returns has committed after the loops, and then
  the table on disk is what the connection saw; a run that raises, be it in the commit
  itself, leaves the table on disk as it was: the rows of a run become durable together
  or not at all.
\<close>

theorem entries_visible_before_the_single_commit:
  "(pairs E cats srcs = ps @ (src, path, cat) # qs @ rs \<longrightarrow>
    for_each (pair_step E g) ps w = Inr w1 \<longrightarrow>
    \<not> SQLFind (rows w1) path (name cat) \<longrightarrow> belongs g cat path \<longrightarrow>
    CopyCommand_init src (destination cat) path = Inr cmd \<longrightarrow>
    CopyCommand_run E cmd w1 = (True, w2) \<longrightarrow>
    for_each (pair_step E g) ((src, path, cat) # qs) w1 = Inr w3 \<longrightarrow>
      SQLFind (rows w3) path (name cat) \<and> committed w3 = committed w
      \<and> (\<forall>src' cat'. name cat' = name cat \<longrightarrow> category_step E g src' path cat' w3 = Inr w3))
   \<and> committed (final_world (sync E g cats srcs w)) = committed w
   \<and> committed (final_world (openDB E w)) = committed w
   \<and> (\<forall>w'. mediasync E secs srcs w = Inr w' \<longrightarrow> committed w' = rows w' \<and> prefix (committed w) (rows w'))
   \<and> (\<forall>e w'. mediasync E secs srcs w = Inl (e, w') \<longrightarrow> committed w' = committed w)"
proof (intro conjI allI impI)
  assume a: "for_each (pair_step E g) ps w = Inr w1"
    "\<not> SQLFind (rows w1) path (name cat)" "belongs g cat path"
    "CopyCommand_init src (destination cat) path = Inr cmd"
    "CopyCommand_run E cmd w1 = (True, w2)"
    "for_each (pair_step E g) ((src, path, cat) # qs) w1 = Inr w3"
  from a(6) obtain wm where step: "category_step E g src path cat w1 = Inr wm"
    and rest: "for_each (pair_step E g) qs wm = Inr w3"
    by (auto simp: pair_step_triple split: sum.splits)
  from step a(2-5) have "rows wm = rows w2 @ [(path, name cat, destinationPath cmd, datetime_now E (ticks w2))]"
    by (auto simp: category_step_def SQLInsert_def Let_def split: option.splits)
  then have fm: "SQLFind (rows wm) path (name cat)"
    by (simp add: SQLFind_append SQLFind_def)
  have i1: "ledger_inv w w1"
    using for_each_ledger_inv [of w E g ps] a(1) by (simp add: final_world_def)
  have i2: "ledger_inv w1 wm"
    using pair_step_ledger_inv [where ?w0.0 = w1 and w = w1 and E = E and g = g
        and p = "(src, path, cat)", OF ledger_inv_refl] step
    by (simp add: pair_step_triple final_world_def)
  have i3: "ledger_inv wm w3"
    using for_each_ledger_inv [of wm E g qs] rest by (simp add: final_world_def)
  from fm i3 show f3: "SQLFind (rows w3) path (name cat)"
    by (auto simp: ledger_inv_def intro: SQLFind_prefix)
  from i1 i2 i3 show "committed w3 = committed w" by (simp add: ledger_inv_def)
  fix src' and cat' :: MediaCategory
  assume "name cat' = name cat"
  with f3 show "category_step E g src' path cat' w3 = Inr w3" by (simp add: category_step_def)
next
  show "committed (final_world (sync E g cats srcs w)) = committed w"
    using sync_ledger_inv [of w E g cats srcs] by (simp add: ledger_inv_def)
next
  show "committed (final_world (openDB E w)) = committed w"
    by (simp add: openDB_def commit_def final_world_def split: option.splits)
next
  fix w' assume "mediasync E secs srcs w = Inr w'"
  then show "committed w' = rows w'" "prefix (committed w) (rows w')"
    using mediasync_committed_returned by blast+
next
  fix e w' assume "mediasync E secs srcs w = Inl (e, w')"
  then show "committed w' = committed w" by (rule mediasync_committed_raised)
qed

theorem entries_visible_before_the_single_commit_witness:
  "pairs (mem_env walk_src no_insert_error) [movies] [''/src'', ''/src'']
     = [(''/src'', ''/src/notes.txt'', movies)] @ (''/src'', ''/src/a/movie.mkv'', movies)
       # [(''/src'', ''/src/notes.txt'', movies)] @ [(''/src'', ''/src/a/movie.mkv'', movies)]
   \<and> for_each (pair_step (mem_env walk_src no_insert_error) (Some [''mkv'']))
        ((''/src'', ''/src/a/movie.mkv'', movies) # [(''/src'', ''/src/notes.txt'', movies)]) world0
     = Inr (world1\<lparr>committed := []\<rparr>)
   \<and> SQLFind (rows (world1\<lparr>committed := []\<rparr>)) ''/src/a/movie.mkv'' ''movies''
   \<and> committed (world1\<lparr>committed := []\<rparr>) = committed world0
   \<and> category_step (mem_env walk_src no_insert_error) (Some [''mkv'']) ''/src''
        ''/src/a/movie.mkv'' movies (world1\<lparr>committed := []\<rparr>)
     = Inr (world1\<lparr>committed := []\<rparr>)
   \<and> mediasync (mem_env walk_src no_insert_error) config [''/src'', ''/src''] world0 = Inr world1
   \<and> committed world1 = rows world1
   \<and> mediasync (commit_fails (mem_env walk_src no_insert_error)) config [''/src''] world0
     = Inl (sqlite3_Error ''disk I/O error'', world1\<lparr>committed := []\<rparr>)"
proof -
  let ?E = "mem_env walk_src no_insert_error"
  let ?n = "(''/src'', ''/src/notes.txt'', movies)"
  let ?m = "(''/src'', ''/src/a/movie.mkv'', movies)"
  let ?cmd = "\<lparr>sourcePath = ''/src/a/movie.mkv'', destinationPath = ''/dst/movies/a/movie.mkv''\<rparr>"
  let ?w3 = "world1\<lparr>committed := []\<rparr>"
  have h1: "pairs ?E [movies] [''/src'', ''/src''] = [?n] @ ?m # [?n] @ [?m]" by (simp add: ev)
  have h2: "for_each (pair_step ?E (Some [''mkv''])) [?n] world0 = Inr world0" by (simp add: ev)
  have h3: "\<not> SQLFind (rows world0) ''/src/a/movie.mkv'' (name movies)" by (simp add: ev)
  have h4: "belongs (Some [''mkv'']) movies ''/src/a/movie.mkv''" by (simp add: ev)
  have h5: "CopyCommand_init ''/src'' (destination movies) ''/src/a/movie.mkv'' = Inr ?cmd"
    by (simp add: ev)
  have h6: "CopyCommand_run ?E ?cmd world0 = (True, world0\<lparr>fs := fs1\<rparr>)" by (simp add: ev)
  have h7: "for_each (pair_step ?E (Some [''mkv''])) (?m # [?n]) world0 = Inr ?w3"
    by (simp add: ev)
  have h8: "mediasync ?E config [''/src'', ''/src''] world0 = Inr world1" by (simp add: ev)
  have n: "name movies = name movies" by simp
  note t = entries_visible_before_the_single_commit
    [where E = ?E and cats = "[movies]" and srcs = "[''/src'', ''/src'']" and g = "Some [''mkv'']"
       and w = world0 and secs = config and ps = "[?n]" and src = "''/src''"
       and path = "''/src/a/movie.mkv''" and cat = movies and qs = "[?n]" and rs = "[?m]"
       and ?w1.0 = world0 and cmd = ?cmd and ?w2.0 = "world0\<lparr>fs := fs1\<rparr>" and ?w3.0 = ?w3]
  from t h1 h2 h3 h4 h5 h6 h7
  have a: "SQLFind (rows ?w3) ''/src/a/movie.mkv'' (name movies) \<and> committed ?w3 = committed world0
      \<and> (\<forall>src' cat'. name cat' = name movies \<longrightarrow>
            category_step ?E (Some [''mkv'']) src' ''/src/a/movie.mkv'' cat' ?w3 = Inr ?w3)"
    by blast
  with n have b: "category_step ?E (Some [''mkv'']) ''/src'' ''/src/a/movie.mkv'' movies ?w3 = Inr ?w3"
    by blast
  from t h8 have c: "committed world1 = rows world1" by blast
  have h9: "mediasync (commit_fails ?E) config [''/src''] world0
     = Inl (sqlite3_Error ''disk I/O error'', world1\<lparr>committed := []\<rparr>)"
    by (simp add: ev)
  from h1 h7 h8 h9 a b c show ?thesis by (simp add: movies_def)
qed

subsection \<open>Failures of the file system\<close>

text \<open>
  \<^const>\<open>CopyCommand_run\<close>, case by case.
\<close>

lemma CopyCommand_run_unfold:
  "CopyCommand_run E cmd w =
     (if \<not> os_path_isdir E (fs w) (destinationFolder cmd) then
        (case os_makedirs E (fs w) (destinationFolder cmd) of
           (Some m, f) \<Rightarrow> (False, w\<lparr>fs := f, console := console w @ [StderrWrite (m @ [CHR 0x0A])]\<rparr>)
         | (None, f0) \<Rightarrow>
             (case shutil_copyfile E f0 (sourcePath cmd) (destinationPath cmd) of
                (Some m, f) \<Rightarrow> (False, w\<lparr>fs := f, console := console w @ [StderrWrite (m @ [CHR 0x0A])]\<rparr>)
              | (None, f) \<Rightarrow> (True, w\<lparr>fs := f\<rparr>)))
      else
        (case shutil_copyfile E (fs w) (sourcePath cmd) (destinationPath cmd) of
           (Some m, f) \<Rightarrow> (False, w\<lparr>fs := f, console := console w @ [StderrWrite (m @ [CHR 0x0A])]\<rparr>)
         | (None, f) \<Rightarrow> (True, w\<lparr>fs := f\<rparr>)))"
  by (auto simp: CopyCommand_run_def destinationFolder_def Let_def split: prod.splits option.splits)

text \<open>
  C6. When \<^verbatim>\<open>os.makedirs\<close> or \<^verbatim>\<open>shutil.copyfile\<close> raises for a pair, the text of
  the error is written to \<^verbatim>\<open>sys.stderr\<close>, no row is inserted for the pair, and the
  loops go on with the remaining triples from the state so reached.
\<close>

theorem copy_failure_skips_pair_only:
  assumes "pairs E cats srcs = ps @ (src, path, cat) # qs"
    and "for_each (pair_step E g) ps w0 = Inr w"
    and "\<not> SQLFind (rows w) path (name cat)" and "belongs g cat path"
    and "CopyCommand_init src (destination cat) path = Inr cmd"
    and "(\<not> os_path_isdir E (fs w) (destinationFolder cmd)
            \<and> os_makedirs E (fs w) (destinationFolder cmd) = (Some msg, f))
       \<or> (os_path_isdir E (fs w) (destinationFolder cmd)
            \<and> shutil_copyfile E (fs w) (sourcePath cmd) (destinationPath cmd) = (Some msg, f))
       \<or> (\<exists>f0. \<not> os_path_isdir E (fs w) (destinationFolder cmd)
            \<and> os_makedirs E (fs w) (destinationFolder cmd) = (None, f0)
            \<and> shutil_copyfile E f0 (sourcePath cmd) (destinationPath cmd) = (Some msg, f))"
  shows "category_step E g src path cat w
           = Inr (w\<lparr>fs := f, console := console w @ [StderrWrite (msg @ [CHR 0x0A])]\<rparr>)
     \<and> rows (w\<lparr>fs := f, console := console w @ [StderrWrite (msg @ [CHR 0x0A])]\<rparr>) = rows w
     \<and> sync E g cats srcs w0
           = for_each (pair_step E g) qs
               (w\<lparr>fs := f, console := console w @ [StderrWrite (msg @ [CHR 0x0A])]\<rparr>)"
proof -
  let ?w1 = "w\<lparr>fs := f, console := console w @ [StderrWrite (msg @ [CHR 0x0A])]\<rparr>"
  from assms(6) have run: "CopyCommand_run E cmd w = (False, ?w1)"
    by (auto simp: CopyCommand_run_unfold)
  with assms(3-5) have step: "category_step E g src path cat w = Inr ?w1"
    by (simp add: category_step_def)
  then have "pair_step E g (src, path, cat) w = Inr ?w1" by (simp add: pair_step_triple)
  with for_each_split [OF assms(2), of "(src, path, cat)" qs]
  have "sync E g cats srcs w0 = for_each (pair_step E g) qs ?w1"
    by (simp add: sync_flat assms(1))
  with step show ?thesis by simp
qed

theorem copy_failure_skips_pair_only_witness:
  "category_step (mem_env walk_two no_insert_error) (Some [''mkv'']) ''/src'' ''/src/a.mkv'' movies
      world_missing
     = Inr (world_missing
             \<lparr>fs := \<lparr>mem_files = [(''/src/b.mkv'', ''B'')], mem_dirs = [''/dst/movies'', ''/src'']\<rparr>,
              console := [StderrWrite (''[Errno 2] No such file or directory'' @ [CHR 0x0A])]\<rparr>)
   \<and> sync (mem_env walk_two no_insert_error) (Some [''mkv'']) [movies] [''/src''] world_missing
     = Inr \<lparr>fs = \<lparr>mem_files = [(''/dst/movies/b.mkv'', ''B''), (''/src/b.mkv'', ''B'')],
                  mem_dirs = [''/dst/movies'', ''/src'']\<rparr>,
            rows = [(''/src/b.mkv'', ''movies'', ''/dst/movies/b.mkv'', ''2012-06-01T12:00:00'')],
            committed = [],
            console = [StderrWrite (''[Errno 2] No such file or directory'' @ [CHR 0x0A]),
                       PrintNewEntry (''/src/b.mkv'', ''movies'', ''/dst/movies/b.mkv'',
                                      ''2012-06-01T12:00:00'')],
            ticks = 1\<rparr>"
proof -
  let ?E = "mem_env walk_two no_insert_error"
  let ?cmd = "\<lparr>sourcePath = ''/src/a.mkv'', destinationPath = ''/dst/movies/a.mkv''\<rparr>"
  let ?f = "\<lparr>mem_files = [(''/src/b.mkv'', ''B'')], mem_dirs = [''/dst/movies'', ''/src'']\<rparr>"
  have h1: "pairs ?E [movies] [''/src'']
              = [] @ (''/src'', ''/src/a.mkv'', movies) # [(''/src'', ''/src/b.mkv'', movies)]"
    by (simp add: ev)
  have h2: "for_each (pair_step ?E (Some [''mkv''])) [] world_missing = Inr world_missing" by simp
  have h3: "\<not> SQLFind (rows world_missing) ''/src/a.mkv'' (name movies)" by (simp add: ev)
  have h4: "belongs (Some [''mkv'']) movies ''/src/a.mkv''" by (simp add: ev)
  have h5: "CopyCommand_init ''/src'' (destination movies) ''/src/a.mkv'' = Inr ?cmd"
    by (simp add: ev)
  have h6: "(\<not> os_path_isdir ?E (fs world_missing) (destinationFolder ?cmd)
            \<and> os_makedirs ?E (fs world_missing) (destinationFolder ?cmd)
                = (Some ''[Errno 2] No such file or directory'', ?f))
       \<or> (os_path_isdir ?E (fs world_missing) (destinationFolder ?cmd)
            \<and> shutil_copyfile ?E (fs world_missing) (sourcePath ?cmd) (destinationPath ?cmd)
                = (Some ''[Errno 2] No such file or directory'', ?f))
       \<or> (\<exists>f0. \<not> os_path_isdir ?E (fs world_missing) (destinationFolder ?cmd)
            \<and> os_makedirs ?E (fs world_missing) (destinationFolder ?cmd) = (None, f0)
            \<and> shutil_copyfile ?E f0 (sourcePath ?cmd) (destinationPath ?cmd)
                = (Some ''[Errno 2] No such file or directory'', ?f))"
    by (simp add: ev)
  from copy_failure_skips_pair_only [OF h1 h2 h3 h4 h5 h6]
  show ?thesis by (simp add: ev)
qed




subsection \<open>Failures of the database\<close>

text \<open>
  C4, as the claim states it, fails: with a database that cannot be written, the run
  ends with the error of the first \<^verbatim>\<open>INSERT\<close>. The first film has been copied and
  announced, the second is never looked at, and nothing is committed.
\<close>

theorem insert_failure_counterexample:
  "mediasync (mem_env walk_two disk_full) config [''/src''] world_two
     = Inl (sqlite3_Error ''database or disk is full'',
            \<lparr>fs = \<lparr>mem_files = [(''/dst/movies/a.mkv'', ''A''), (''/src/a.mkv'', ''A''),
                                (''/src/b.mkv'', ''B'')],
                   mem_dirs = [''/dst/movies'', ''/src'']\<rparr>,
             rows = [], committed = [],
             console = [PrintNewEntry (''/src/a.mkv'', ''movies'', ''/dst/movies/a.mkv'',
                                       ''2012-06-01T12:00:00'')],
             ticks = 1\<rparr>)"
  by (simp add: ev)

text \<open>
  C4, amended. When the \<^verbatim>\<open>INSERT\<close> for a pair raises, nothing catches the error: the
  run ends there, after the file has been copied and the line ``New media entry''
  printed. The pair is not recorded, the remaining files and categories are not
  processed, and the commit is not reached.
\<close>

theorem insert_failure_aborts_run:
  assumes "pairs E cats srcs = ps @ (src, path, cat) # qs"
    and "for_each (pair_step E g) ps w0 = Inr w"
    and "\<not> SQLFind (rows w) path (name cat)" and "belongs g cat path"
    and "CopyCommand_init src (destination cat) path = Inr cmd"
    and "CopyCommand_run E cmd w = (True, w1)"
    and "sqlite_insert_error E (rows w1)
           (path, name cat, destinationPath cmd, datetime_now E (ticks w1)) = Some msg"
  shows "sync E g cats srcs w0
           = Inl (sqlite3_Error msg,
                  w1\<lparr>ticks := Suc (ticks w1),
                     console := console w1 @
                       [PrintNewEntry (path, name cat, destinationPath cmd, datetime_now E (ticks w1))]\<rparr>)
     \<and> rows w1 = rows w \<and> committed w1 = committed w0"
proof -
  let ?v = "(path, name cat, destinationPath cmd, datetime_now E (ticks w1))"
  let ?w2 = "w1\<lparr>ticks := Suc (ticks w1), console := console w1 @ [PrintNewEntry ?v]\<rparr>"
  from assms(3-7) have "category_step E g src path cat w = Inl (sqlite3_Error msg, ?w2)"
    by (simp add: category_step_def SQLInsert_def Let_def)
  then have "pair_step E g (src, path, cat) w = Inl (sqlite3_Error msg, ?w2)"
    by (simp add: pair_step_triple)
  with for_each_split [OF assms(2), of "(src, path, cat)" qs]
  have s: "sync E g cats srcs w0 = Inl (sqlite3_Error msg, ?w2)"
    by (simp add: sync_flat assms(1))
  have "committed w = committed w0"
    using for_each_ledger_inv [of w0 E g ps] assms(2) by (simp add: final_world_def ledger_inv_def)
  with s CopyCommand_run_frame' [OF assms(6)] show ?thesis by simp
qed

theorem insert_failure_aborts_run_witness:
  "sync (mem_env walk_two disk_full) (Some [''mkv'']) [movies] [''/src''] world_two
     = Inl (sqlite3_Error ''database or disk is full'',
            \<lparr>fs = \<lparr>mem_files = [(''/dst/movies/a.mkv'', ''A''), (''/src/a.mkv'', ''A''),
                                (''/src/b.mkv'', ''B'')],
                   mem_dirs = [''/dst/movies'', ''/src'']\<rparr>,
             rows = [], committed = [],
             console = [PrintNewEntry (''/src/a.mkv'', ''movies'', ''/dst/movies/a.mkv'',
                                       ''2012-06-01T12:00:00'')],
             ticks = 1\<rparr>)"
proof -
  let ?E = "mem_env walk_two disk_full"
  let ?cmd = "\<lparr>sourcePath = ''/src/a.mkv'', destinationPath = ''/dst/movies/a.mkv''\<rparr>"
  let ?w1 = "\<lparr>fs = \<lparr>mem_files = [(''/dst/movies/a.mkv'', ''A''), (''/src/a.mkv'', ''A''),
                                (''/src/b.mkv'', ''B'')],
                   mem_dirs = [''/dst/movies'', ''/src'']\<rparr>,
             rows = [], committed = [], console = [], ticks = 0\<rparr> :: memfs world"
  have h1: "pairs ?E [movies] [''/src'']
              = [] @ (''/src'', ''/src/a.mkv'', movies) # [(''/src'', ''/src/b.mkv'', movies)]"
    by (simp add: ev)
  have h2: "for_each (pair_step ?E (Some [''mkv''])) [] world_two = Inr world_two" by simp
  have h3: "\<not> SQLFind (rows world_two) ''/src/a.mkv'' (name movies)" by (simp add: ev)
  have h4: "belongs (Some [''mkv'']) movies ''/src/a.mkv''" by (simp add: ev)
  have h5: "CopyCommand_init ''/src'' (destination movies) ''/src/a.mkv'' = Inr ?cmd"
    by (simp add: ev)
  have h6: "CopyCommand_run ?E ?cmd world_two = (True, ?w1)" by (simp add: ev)
  have h7: "sqlite_insert_error ?E (rows ?w1)
      (''/src/a.mkv'', name movies, destinationPath ?cmd, datetime_now ?E (ticks ?w1))
      = Some ''database or disk is full''"
    by (simp add: ev)
  from insert_failure_aborts_run [OF h1 h2 h3 h4 h5 h6 h7] show ?thesis by (simp add: ev)
qed

subsection \<open>Running twice\<close>

lemma CopyCommand_run_console:
  assumes "CopyCommand_run E cmd w = (b, w1)"
  shows "if b then console w1 = console w else (\<exists>m. console w1 = console w @ [StderrWrite m])"
  using assms
  by (auto simp: CopyCommand_run_unfold split: if_splits prod.splits option.splits)

lemma category_step_console:
  "prefix (console w) (console (final_world (category_step E g src path cat w)))"
proof (cases "SQLFind (rows w) path (name cat) \<or> \<not> belongs g cat path")
  case True
  then show ?thesis by (auto simp: category_step_def final_world_def)
next
  case False
  show ?thesis
  proof (cases "CopyCommand_init src (destination cat) path")
    case (Inl pe)
    with False show ?thesis by (cases pe) (auto simp: category_step_def final_world_def)
  next
    case (Inr cmd)
    obtain b w1 where run: "CopyCommand_run E cmd w = (b, w1)" by (cases "CopyCommand_run E cmd w")
    from CopyCommand_run_console [OF run] have "prefix (console w) (console w1)"
      by (auto split: if_splits)
    with False Inr run show ?thesis
      by (cases b)
        (auto simp: category_step_def final_world_def SQLInsert_def Let_def prefix_def
              split: option.splits)
  qed
qed

lemma diagnostics_prefix:
  fixes w w' :: "'fs world"
  shows "prefix (console w) (console w') \<Longrightarrow> prefix (diagnostics w) (diagnostics w')"
  by (auto simp: prefix_def diagnostics_def)

lemma for_each_console:
  fixes w :: "'fs world"
  shows "prefix (console w) (console (final_world (for_each (pair_step E g) ps w)))"
proof (rule for_each_final [where P = "\<lambda>w'. prefix (console w) (console w')"])
  fix x :: "string \<times> string \<times> MediaCategory" and w' :: "'fs world"
  assume p: "prefix (console w) (console w')"
  obtain src path cat where x: "x = (src, path, cat)" by (cases x)
  from category_step_console [of w' E g src path cat] p
  show "prefix (console w) (console (final_world (pair_step E g x w')))"
    by (auto simp: x pair_step_triple)
next
  show "prefix (console w) (console w)" by simp
qed

text \<open>
  A step that returns without a diagnostic leaves a pair the category accepts in the
  table.
\<close>

lemma category_step_recorded:
  assumes "category_step E g src path cat w = Inr w1" and "diagnostics w1 = diagnostics w"
    and "belongs g cat path"
  shows "SQLFind (rows w1) path (name cat)"
proof (cases "SQLFind (rows w) path (name cat)")
  case True
  with assms show ?thesis by (simp add: category_step_def)
next
  case False
  show ?thesis
  proof (cases "CopyCommand_init src (destination cat) path")
    case (Inl pe)
    with False assms show ?thesis by (cases pe) (auto simp: category_step_def)
  next
    case (Inr cmd)
    obtain b wr where run: "CopyCommand_run E cmd w = (b, wr)" by (cases "CopyCommand_run E cmd w")
    show ?thesis
    proof (cases b)
      case True
      with False Inr run assms show ?thesis
        by (auto simp: category_step_def SQLInsert_def Let_def SQLFind_append SQLFind_def
              split: option.splits)
    next
      case b: False
      with CopyCommand_run_console [OF run] obtain m where "console wr = console w @ [StderrWrite m]"
        by auto
      moreover from False Inr run b assms have "w1 = wr" by (simp add: category_step_def)
      ultimately have "diagnostics w1 = diagnostics w @ [StderrWrite m]"
        by (simp add: diagnostics_def)
      with assms(2) show ?thesis by simp
    qed
  qed
qed

lemma first_run_records_all:
  assumes "for_each (pair_step E g) ps w = Inr w'" and "diagnostics w' = diagnostics w"
    and "(src, path, cat) \<in> set ps" and "belongs g cat path"
  shows "SQLFind (rows w') path (name cat)"
  using assms
proof (induction ps arbitrary: w)
  case Nil
  then show ?case by simp
next
  case (Cons p ps)
  from Cons.prems(1) obtain wm where step: "pair_step E g p w = Inr wm"
    and rest: "for_each (pair_step E g) ps wm = Inr w'"
    by (auto split: sum.splits)
  obtain s m c where p: "p = (s, m, c)" by (cases p)
  have "prefix (console w) (console wm)"
    using category_step_console [of w E g s m c] step by (simp add: p pair_step_triple final_world_def)
  then have d1: "prefix (diagnostics w) (diagnostics wm)" by (rule diagnostics_prefix)
  have "prefix (console wm) (console w')"
    using for_each_console [of wm E g ps] rest by (simp add: final_world_def)
  then have d2: "prefix (diagnostics wm) (diagnostics w')" by (rule diagnostics_prefix)
  from d1 d2 Cons.prems(2) have dm: "diagnostics wm = diagnostics w"
    by (metis prefix_order.antisym_conv)
  have mono: "prefix (rows wm) (rows w')"
    using for_each_ledger_inv [of wm E g ps] rest by (simp add: final_world_def ledger_inv_def)
  show ?case
  proof (cases "(src, path, cat) = p")
    case True
    with step p have "category_step E g src path cat w = Inr wm" by (simp add: pair_step_triple)
    from category_step_recorded [OF this dm Cons.prems(4)] mono show ?thesis
      by (rule SQLFind_prefix [rotated])
  next
    case False
    with Cons.prems(3) have "(src, path, cat) \<in> set ps" by auto
    with Cons.IH [OF rest] Cons.prems(2,4) dm show ?thesis by simp
  qed
qed

text \<open>
  A loop over pairs that are in the table or rejected by their category does nothing.
\<close>

lemma idle_loop:
  assumes "\<And>src path cat. (src, path, cat) \<in> set ps \<Longrightarrow> belongs g cat path \<Longrightarrow> SQLFind (rows w) path (name cat)"
  shows "for_each (pair_step E g) ps w = Inr w"
  using assms
proof (induction ps)
  case Nil
  then show ?case by simp
next
  case (Cons p ps)
  obtain s m c where p: "p = (s, m, c)" by (cases p)
  from Cons.prems [of s m c] have "pair_step E g p w = Inr w"
    by (auto simp: p pair_step_triple category_step_def)
  moreover have "for_each (pair_step E g) ps w = Inr w"
    by (rule Cons.IH, rule Cons.prems) auto
  ultimately show ?case by simp
qed

lemma init_categories_cong:
  assumes "os_path_expanduser E' = os_path_expanduser E" and "re_compile E' = re_compile E"
  shows "init_categories E' secs acc = init_categories E secs acc"
proof (induction secs arbitrary: acc)
  case Nil
  then show ?case by (cases acc) simp
next
  case (Cons sec secs)
  obtain s opts where sec: "sec = (s, opts)" by (cases sec)
  obtain cats g where acc: "acc = (cats, g)" by (cases acc)
  show ?case
    by (simp add: sec acc Cons.IH assms Let_def split: option.splits)
qed

lemma pairs_cong: "os_walk E' = os_walk E \<Longrightarrow> pairs E' cats srcs = pairs E cats srcs"
  by (simp add: pairs_def)

text \<open>
  C1, as the claim states it, fails: after a first run without any failure, the check
  of line 187 does not find the pair of the text file and the category \<^verbatim>\<open>movies\<close>. The
  second run skips that pair all the same, at line 193, and changes nothing.
\<close>

theorem contains_check_counterexample:
  "mediasync (mem_env walk_src no_insert_error) config [''/src''] world0 = Inr world1
   \<and> diagnostics world1 = []
   \<and> (''/src'', ''/src/notes.txt'', movies) \<in> set (pairs (mem_env walk_src no_insert_error) [movies] [''/src''])
   \<and> \<not> SQLFind (committed world1) ''/src/notes.txt'' ''movies''
   \<and> openDB (mem_env walk_src no_insert_error) world1 = Inr world1
   \<and> \<not> SQLFind (rows world1) ''/src/notes.txt'' ''movies''
   \<and> mediasync (mem_env walk_src no_insert_error) config [''/src''] world1 = Inr world1"
  by (simp add: ev)

text \<open>
  C1, amended. After a run that returned and wrote no diagnostic, a second run over the
  same directory walk and the same configuration, on the table the first run committed,
  copies nothing, prints nothing and inserts nothing: it ends in the state in which the
  database was opened, and it returns unless one of its commits raises. Every pair is
  skipped before a copy command is built: by the check of line 187 when the category
  accepts the file, and by \<^verbatim>\<open>belongs\<close> at line 193 otherwise.
\<close>

theorem second_run_copies_nothing:
  assumes "mediasync E secs srcs w0 = Inr w1" and "diagnostics w1 = diagnostics w0"
    and "os_walk E' = os_walk E" and "os_path_expanduser E' = os_path_expanduser E"
    and "re_compile E' = re_compile E"
    and "committed w = committed w1"
  shows "final_world (mediasync E' secs srcs w) = w\<lparr>rows := committed w\<rparr>
    \<and> (sqlite_commit_error E' (committed w) = None \<longrightarrow>
          mediasync E' secs srcs w = Inr (w\<lparr>rows := committed w\<rparr>))
    \<and> (\<forall>cats g. init_categories E' secs ([], None) = Inr (cats, g) \<longrightarrow>
         (\<forall>(src, path, cat)\<in>set (pairs E' cats srcs).
            belongs g cat path \<longrightarrow> SQLFind (committed w) path (name cat)))"
proof -
  let ?wo = "w\<lparr>rows := committed w\<rparr>"
  from assms(1) have ne: "int (length secs) - 2 \<noteq> 0" by (auto simp: mediasync_def split: if_splits)
  from assms(1) ne obtain w01 where o: "openDB E w0 = Inr w01"
    by (cases "openDB E w0") (auto simp: mediasync_def)
  from assms(1) ne o obtain cats g where init: "init_categories E secs ([], None) = Inr (cats, g)"
    by (cases "init_categories E secs ([], None)") (auto simp: mediasync_def)
  from assms(1) obtain w2 where s: "sync E g cats srcs w01 = Inr w2" and c: "commit E w2 = Inr w1"
    unfolding mediasync_sync [OF ne o init] by (auto split: sum.splits)
  note w1 = commit_Inr [OF c] and w01 = openDB_Inr [OF o]
  have d: "diagnostics w2 = diagnostics w01"
    using assms(2) w1 w01 by (simp add: diagnostics_def)
  have rec: "SQLFind (committed w) path (name cat)"
    if "(src, path, cat) \<in> set (pairs E cats srcs)" and "belongs g cat path" for src path cat
    using first_run_records_all [OF s [unfolded sync_flat] d that] assms(6) w1
    by simp
  have init': "init_categories E' secs ([], None) = Inr (cats, g)"
    using init init_categories_cong [OF assms(4,5)] by simp
  have p': "pairs E' cats srcs = pairs E cats srcs" by (rule pairs_cong [OF assms(3)])
  have "for_each (pair_step E' g) (pairs E' cats srcs) ?wo = Inr ?wo"
    by (rule idle_loop) (use rec p' in simp)
  then have idle: "sync E' g cats srcs ?wo = Inr ?wo" by (simp add: sync_flat)
  have same: "?wo\<lparr>committed := rows ?wo\<rparr> = ?wo" by simp
  have cm: "commit E' ?wo = Inr ?wo \<or> (\<exists>e. commit E' ?wo = Inl (e, ?wo))"
    using same by (auto simp: commit_def split: option.splits)
  have cm_ok: "commit E' ?wo = Inr ?wo" if "sqlite_commit_error E' (committed w) = None"
    using that same by (simp add: commit_def)
  have op: "openDB E' w = commit E' ?wo" by (simp add: openDB_def)
  have run: "mediasync E' secs srcs w = commit E' ?wo"
  proof (cases "commit E' ?wo")
    case (Inl ew)
    with ne op show ?thesis by (simp add: mediasync_def)
  next
    case (Inr wx)
    with cm have "commit E' ?wo = Inr ?wo" by auto
    with op idle show ?thesis
      using mediasync_sync [OF ne _ init', where ?w1.0 = ?wo and srcs = srcs and w = w] by simp
  qed
  from run cm have "final_world (mediasync E' secs srcs w) = ?wo"
    by (auto simp: final_world_def)
  moreover from run cm_ok
  have "sqlite_commit_error E' (committed w) = None \<longrightarrow> mediasync E' secs srcs w = Inr ?wo"
    by simp
  moreover have "\<forall>cats' g'. init_categories E' secs ([], None) = Inr (cats', g') \<longrightarrow>
         (\<forall>(src, path, cat)\<in>set (pairs E' cats' srcs).
            belongs g' cat path \<longrightarrow> SQLFind (committed w) path (name cat))"
    using init' rec p' by auto
  ultimately show ?thesis by blast
qed

theorem second_run_copies_nothing_witness:
  "mediasync (mem_env walk_src no_insert_error) config [''/src''] world0 = Inr world1
   \<and> diagnostics world1 = diagnostics world0
   \<and> world1\<lparr>rows := committed world1\<rparr> = world1
   \<and> final_world (mediasync (mem_env walk_src no_insert_error) config [''/src''] world1) = world1
   \<and> mediasync (mem_env walk_src no_insert_error) config [''/src''] world1 = Inr world1
   \<and> SQLFind (committed world1) ''/src/a/movie.mkv'' ''movies''
   \<and> \<not> belongs (Some [''mkv'']) movies ''/src/notes.txt''"
proof -
  let ?E = "mem_env walk_src no_insert_error"
  have h1: "mediasync ?E config [''/src''] world0 = Inr world1"
    by (simp add: ev)
  have h2: "diagnostics world1 = diagnostics world0" by (simp add: ev)
  have o: "world1\<lparr>rows := committed world1\<rparr> = world1" by (simp add: ev)
  have ce: "sqlite_commit_error ?E (committed world1) = None" by (simp add: ev)
  have f: "SQLFind (committed world1) ''/src/a/movie.mkv'' ''movies''" by (simp add: ev)
  have b: "\<not> belongs (Some [''mkv'']) movies ''/src/notes.txt''" by (simp add: ev)
  note t = second_run_copies_nothing [OF h1 h2 refl refl refl refl]
  from t have "final_world (mediasync ?E config [''/src''] world1) = world1\<lparr>rows := committed world1\<rparr>"
    by blast
  moreover from t ce
  have "mediasync ?E config [''/src''] world1 = Inr (world1\<lparr>rows := committed world1\<rparr>)"
    by blast
  ultimately show ?thesis using h1 h2 o f b by simp
qed

end
